theory Spec2Isabelle
  imports Complex_Main "HOL-Library.AList"
begin

section \<open>Conventions of the embedding\<close>

text \<open>
  The development embeds two Python modules of the repository:
  \<^verbatim>\<open>openrouter_model_manager.py\<close> (metrics, health score, model selection, rate
  limiting, outcome recording) and \<^verbatim>\<open>error_handling_system.py\<close> (circuit breaker,
  retry policy).

  \<^item> Python \<^verbatim>\<open>int\<close> is \<open>int\<close>. Python \<^verbatim>\<open>float\<close> is idealised as \<open>real\<close>:
    rounding and NaN of IEEE doubles are outside the model. Where a float operation of
    the source raises on overflow (the power in \<^verbatim>\<open>get_delay\<close>), the model raises
    too.
  \<^item> A \<^verbatim>\<open>datetime\<close> is a real number of seconds on some fixed time line and a
    \<^verbatim>\<open>timedelta\<close> is a real number of seconds, so that
    \<^verbatim>\<open>(a - b).total_seconds()\<close> is \<open>a - b\<close>.
  \<^item> \<^verbatim>\<open>datetime.now()\<close> is an input: a function that reads the clock takes the
    value read as a parameter \<open>now\<close>. Clock reads inside one straight-line piece of
    code (no \<^verbatim>\<open>await\<close> between them) are taken at the same instant.
  \<^item> An awaited callable is a state transformer on a world \<open>'w\<close> that returns an
    outcome; where a function awaits one, the clock is a function of the world.
  \<^item> Writing a log record has no effect in the model; what the source evaluates to
    build the message is modelled where it can raise (\<^verbatim>\<open>func.__name__\<close> in
    \<^verbatim>\<open>execute\<close>).
\<close>

type_synonym datetime = real
type_synonym timedelta = real

section \<open>Model metrics and health score (openrouter\_model\_manager.py)\<close>

datatype ModelStatus = AVAILABLE | UNAVAILABLE | RATE_LIMITED | ERROR | TESTING

record ModelMetrics =
  total_requests :: int
  successful_requests :: int
  failed_requests :: int
  average_response_time :: real
  last_success :: "datetime option"
  last_failure :: "datetime option"
  consecutive_failures :: int
  error_rate :: real

text \<open>The dataclass defaults: \<^verbatim>\<open>ModelMetrics()\<close>.\<close>

definition ModelMetrics_init :: ModelMetrics where
  "ModelMetrics_init =
     \<lparr>total_requests = 0, successful_requests = 0, failed_requests = 0,
      average_response_time = 0, last_success = None, last_failure = None,
      consecutive_failures = 0, error_rate = 0\<rparr>"

text \<open>
  \<^verbatim>\<open>_update_error_rate\<close>: the division is Python's true division of two ints,
  guarded by \<^verbatim>\<open>total_requests > 0\<close>.
\<close>

definition update_error_rate :: "ModelMetrics \<Rightarrow> ModelMetrics" where
  "update_error_rate m =
     (if total_requests m > 0
      then m\<lparr>error_rate := real_of_int (failed_requests m) / real_of_int (total_requests m)\<rparr>
      else m)"

text \<open>
  \<^verbatim>\<open>update_success(response_time)\<close>. The counters are bumped first; the average is
  then recomputed with the already incremented \<^verbatim>\<open>total_requests\<close>.
\<close>

definition update_success :: "ModelMetrics \<Rightarrow> datetime \<Rightarrow> real \<Rightarrow> ModelMetrics" where
  "update_success m now response_time =
     (let m1 = m\<lparr>total_requests := total_requests m + 1,
                 successful_requests := successful_requests m + 1,
                 last_success := Some now,
                 consecutive_failures := 0\<rparr>;
          m2 = (if total_requests m1 = 1
                then m1\<lparr>average_response_time := response_time\<rparr>
                else m1\<lparr>average_response_time :=
                        (average_response_time m1 * real_of_int (total_requests m1 - 1)
                           + response_time)
                        / real_of_int (total_requests m1)\<rparr>)
      in update_error_rate m2)"

definition update_failure :: "ModelMetrics \<Rightarrow> datetime \<Rightarrow> ModelMetrics" where
  "update_failure m now =
     update_error_rate
       (m\<lparr>total_requests := total_requests m + 1,
          failed_requests := failed_requests m + 1,
          last_failure := Some now,
          consecutive_failures := consecutive_failures m + 1\<rparr>)"

text \<open>
  \<^verbatim>\<open>FreeModel\<close>. The field \<^verbatim>\<open>id\<close> is called \<open>model_id\<close> here, since \<open>id\<close> is
  the identity function of HOL. \<^verbatim>\<open>pricing\<close> is a dict from strings to floats.
\<close>

record FreeModel =
  model_id :: string
  name :: string
  description :: string
  context_length :: int
  pricing :: "string \<rightharpoonup> real"
  status :: ModelStatus
  metrics :: ModelMetrics
  last_checked :: "datetime option"
  rate_limit_rpm :: "int option"

text \<open>
  The property \<^verbatim>\<open>health_score\<close>. It reads the clock when \<^verbatim>\<open>last_success\<close> is set.
\<close>

definition health_score :: "datetime \<Rightarrow> FreeModel \<Rightarrow> real" where
  "health_score now m =
     (if status m = UNAVAILABLE then 0
      else
        let success_rate = 1 - error_rate (metrics m);
            failure_penalty = min (1/2) (real_of_int (consecutive_failures (metrics m)) * (1/10));
            time_bonus =
              (case last_success (metrics m) of
                 None \<Rightarrow> 0
               | Some t \<Rightarrow> max 0 ((2/10) * (1 - (now - t) / 3600)));
            speed_penalty = min (3/10) (max 0 ((average_response_time (metrics m) - 2) * (1/10)));
            score = success_rate - failure_penalty + time_bonus - speed_penalty
        in max 0 (min 1 score))"

section \<open>The model manager (openrouter\_model\_manager.py)\<close>

text \<open>
  \<^verbatim>\<open>OpenRouterModelManager\<close>. \<^verbatim>\<open>self.models\<close> is a dict keyed by model id; a Python
  dict iterates in insertion order and assigning to an existing key keeps its place, which
  is what an association list with \<open>AList.update\<close> does. \<^verbatim>\<open>rate_limit_tracker\<close> is
  only read per key, so it is a map. The HTTP session and the discovery timestamps
  belong to the network side and are not modelled.
\<close>

record OpenRouterModelManager =
  models :: "(string \<times> FreeModel) list"
  circuit_breaker_threshold :: int
  rate_limit_tracker :: "string \<rightharpoonup> datetime list"

text \<open>
  Python's \<^verbatim>\<open>max(iterable, key=...)\<close> on a non-empty iterable: the first item is the
  candidate, and a later item replaces it only when its key is strictly greater.
\<close>

fun max_key_from :: "('a \<Rightarrow> real) \<Rightarrow> 'a \<Rightarrow> 'a list \<Rightarrow> 'a" where
  "max_key_from key best [] = best"
| "max_key_from key best (x # xs) =
     max_key_from key (if key x > key best then x else best) xs"

text \<open>
  \<^verbatim>\<open>get_best_model(exclude_models)\<close>, after \<^verbatim>\<open>_refresh_if_needed()\<close> has returned:
  the manager passed in is the one the list comprehension reads. The test
  \<^verbatim>\<open>not exclude_models\<close> holds for \<^verbatim>\<open>None\<close> and for the empty set.
\<close>

definition available_models ::
    "OpenRouterModelManager \<Rightarrow> string set option \<Rightarrow> FreeModel list" where
  "available_models mgr exclude_models =
     filter (\<lambda>model. status model = AVAILABLE \<and>
                (case exclude_models of
                   None \<Rightarrow> True
                 | Some ex \<Rightarrow> ex = {} \<or> model_id model \<notin> ex))
            (map snd (models mgr))"

definition get_best_model ::
    "OpenRouterModelManager \<Rightarrow> string set option \<Rightarrow> datetime \<Rightarrow> FreeModel option" where
  "get_best_model mgr exclude_models now =
     (case available_models mgr exclude_models of
        [] \<Rightarrow> None
      | m # ms \<Rightarrow> Some (max_key_from (health_score now) m ms))"

definition rotate_model ::
    "OpenRouterModelManager \<Rightarrow> string \<Rightarrow> datetime \<Rightarrow> FreeModel option" where
  "rotate_model mgr current_model_id now = get_best_model mgr (Some {current_model_id}) now"

text \<open>
  \<^verbatim>\<open>check_rate_limits(model_id)\<close>. The window of the id is created when missing and
  pruned in every case; \<^verbatim>\<open>model and model.rate_limit_rpm\<close> is false for an unknown id,
  for \<^verbatim>\<open>rate_limit_rpm = None\<close> and for \<^verbatim>\<open>rate_limit_rpm = 0\<close>.
\<close>

definition tracked :: "OpenRouterModelManager \<Rightarrow> string \<Rightarrow> datetime list" where
  "tracked mgr mid = (case rate_limit_tracker mgr mid of None \<Rightarrow> [] | Some ts \<Rightarrow> ts)"


text \<open>
  \<^verbatim>\<open>record_request(model_id, success, response_time=None)\<close>. An unknown id returns
  at once. The success branch needs both \<^verbatim>\<open>success\<close> and a response time.
\<close>

definition record_request ::
    "OpenRouterModelManager \<Rightarrow> string \<Rightarrow> bool \<Rightarrow> real option \<Rightarrow> datetime
       \<Rightarrow> OpenRouterModelManager" where
  "record_request mgr mid success response_time now =
     (case map_of (models mgr) mid of
        None \<Rightarrow> mgr
      | Some model \<Rightarrow>
          let mgr1 = mgr\<lparr>rate_limit_tracker :=
                          (rate_limit_tracker mgr)(mid \<mapsto> tracked mgr mid @ [now])\<rparr>;
              model' =
                (case (success, response_time) of
                   (True, Some rt) \<Rightarrow>
                     model\<lparr>metrics := update_success (metrics model) now rt,
                           status := AVAILABLE\<rparr>
                 | _ \<Rightarrow>
                     let me = update_failure (metrics model) now
                     in if consecutive_failures me \<ge> circuit_breaker_threshold mgr1
                        then model\<lparr>metrics := me, status := UNAVAILABLE\<rparr>
                        else model\<lparr>metrics := me\<rparr>)
          in mgr1\<lparr>models := AList.update mid model' (models mgr1)\<rparr>)"

section \<open>Exceptions and outcomes of awaited callables\<close>

text \<open>
  A Python exception object is its type name (what \<^verbatim>\<open>type(e).__name__\<close> returns) and
  its message. An awaited callable returns a value, raises an instance of
  \<^verbatim>\<open>Exception\<close> (\<open>Raised\<close>, what \<^verbatim>\<open>except Exception\<close> catches), or raises a
  \<^verbatim>\<open>BaseException\<close> outside \<^verbatim>\<open>Exception\<close> such as \<^verbatim>\<open>asyncio.CancelledError\<close>
  (\<open>Escaped\<close>, which \<^verbatim>\<open>except Exception\<close> lets through).
\<close>

datatype py_exception = PyExc (exn_type: string) (exn_msg: string)

datatype 'a outcome = Returned 'a | Raised py_exception | Escaped py_exception

section \<open>Circuit breaker (error\_handling\_system.py)\<close>

datatype ErrorSeverity = LOW | MEDIUM | HIGH | CRITICAL

datatype CircuitState = CLOSED | OPEN | HALF_OPEN

record ErrorMetrics =
  total_errors :: int
  errors_by_type :: "string \<rightharpoonup> int"
  errors_by_severity :: "ErrorSeverity \<rightharpoonup> int"
  last_error :: "datetime option"
  consecutive_errors :: int
  recovery_attempts :: int
  successful_recoveries :: int

definition ErrorMetrics_init :: ErrorMetrics where
  "ErrorMetrics_init =
     \<lparr>total_errors = 0, errors_by_type = Map.empty, errors_by_severity = Map.empty,
      last_error = None, consecutive_errors = 0, recovery_attempts = 0,
      successful_recoveries = 0\<rparr>"

definition record_error ::
    "ErrorMetrics \<Rightarrow> string \<Rightarrow> ErrorSeverity \<Rightarrow> datetime \<Rightarrow> ErrorMetrics" where
  "record_error em error_type severity now =
     em\<lparr>total_errors := total_errors em + 1,
        errors_by_type := (errors_by_type em)
          (error_type \<mapsto> (case errors_by_type em error_type of None \<Rightarrow> 0 | Some c \<Rightarrow> c) + 1),
        errors_by_severity := (errors_by_severity em)
          (severity \<mapsto> (case errors_by_severity em severity of None \<Rightarrow> 0 | Some c \<Rightarrow> c) + 1),
        last_error := Some now,
        consecutive_errors := consecutive_errors em + 1\<rparr>"

definition record_success :: "ErrorMetrics \<Rightarrow> ErrorMetrics" where
  "record_success em =
     em\<lparr>consecutive_errors := 0, successful_recoveries := successful_recoveries em + 1\<rparr>"

record CircuitBreakerConfig =
  failure_threshold :: int
  recovery_timeout :: timedelta
  success_threshold :: int
  monitoring_period :: timedelta
  half_open_max_calls :: int

text \<open>The dataclass defaults: \<^verbatim>\<open>CircuitBreakerConfig()\<close>.\<close>

definition CircuitBreakerConfig_default :: CircuitBreakerConfig where
  "CircuitBreakerConfig_default =
     \<lparr>failure_threshold = 5, recovery_timeout = 60, success_threshold = 3,
      monitoring_period = 300, half_open_max_calls = 3\<rparr>"

text \<open>
  \<^verbatim>\<open>CircuitBreaker\<close>. The fields \<^verbatim>\<open>name\<close> and \<^verbatim>\<open>metrics\<close> carry the prefix
  \<open>cb_\<close>, since a record field is a constant and \<open>FreeModel\<close> has both names.
\<close>

record CircuitBreaker =
  cb_name :: string
  config :: CircuitBreakerConfig
  state :: CircuitState
  failure_count :: int
  success_count :: int
  last_failure_time :: "datetime option"
  half_open_calls :: int
  cb_metrics :: ErrorMetrics

text \<open>\<^verbatim>\<open>CircuitBreaker.__init__(name, config)\<close>.\<close>

definition CircuitBreaker_init :: "string \<Rightarrow> CircuitBreakerConfig \<Rightarrow> CircuitBreaker" where
  "CircuitBreaker_init n c =
     \<lparr>cb_name = n, config = c, state = CLOSED, failure_count = 0, success_count = 0,
      last_failure_time = None, half_open_calls = 0, cb_metrics = ErrorMetrics_init\<rparr>"

text \<open>
  \<^verbatim>\<open>_should_attempt_reset\<close>: \<^verbatim>\<open>self.last_failure_time and ...\<close> is falsy when no
  failure time is recorded.
\<close>

definition should_attempt_reset :: "CircuitBreaker \<Rightarrow> datetime \<Rightarrow> bool" where
  "should_attempt_reset b now =
     (case last_failure_time b of
        None \<Rightarrow> False
      | Some t \<Rightarrow> now - t \<ge> recovery_timeout (config b))"

definition classify_error :: "string \<Rightarrow> ErrorSeverity" where
  "classify_error error_type =
     (if error_type \<in> {''ConnectionError'', ''TimeoutError'', ''CircuitBreakerOpenError''}
      then CRITICAL
      else if error_type \<in> {''APIError'', ''AuthenticationError'', ''RateLimitError''}
      then HIGH
      else if error_type \<in> {''ValidationError'', ''NotFoundError''}
      then MEDIUM
      else LOW)"

definition on_success :: "CircuitBreaker \<Rightarrow> CircuitBreaker" where
  "on_success b =
     (let b1 =
        (if state b = HALF_OPEN then
           (let b2 = b\<lparr>success_count := success_count b + 1\<rparr>
            in if success_count b2 \<ge> success_threshold (config b2)
               then b2\<lparr>state := CLOSED, failure_count := 0, success_count := 0\<rparr>
               else b2)
         else if state b = CLOSED then b\<lparr>failure_count := max 0 (failure_count b - 1)\<rparr>
         else b)
      in b1\<lparr>cb_metrics := record_success (cb_metrics b1)\<rparr>)"

definition on_failure :: "CircuitBreaker \<Rightarrow> string \<Rightarrow> datetime \<Rightarrow> CircuitBreaker" where
  "on_failure b error_type now =
     (let b1 = b\<lparr>failure_count := failure_count b + 1,
                 last_failure_time := Some now,
                 cb_metrics := record_error (cb_metrics b) error_type
                                 (classify_error error_type) now\<rparr>
      in if state b1 = HALF_OPEN then b1\<lparr>state := OPEN, success_count := 0\<rparr>
         else if state b1 = CLOSED \<and> failure_count b1 \<ge> failure_threshold (config b1)
         then b1\<lparr>state := OPEN\<rparr>
         else b1)"

definition CircuitBreakerOpenError :: "string \<Rightarrow> py_exception" where
  "CircuitBreakerOpenError msg = PyExc ''CircuitBreakerOpenError'' msg"

text \<open>
  The gate of \<^verbatim>\<open>call\<close>, the two \<^verbatim>\<open>if\<close> statements before the \<^verbatim>\<open>try\<close>:
  \<open>half_open_gate\<close> is the second one. The gate returns the exception raised, if any,
  and the breaker as it left it: the move to \<open>HALF_OPEN\<close> is kept when the second
  test rejects the call.
\<close>

definition half_open_gate :: "CircuitBreaker \<Rightarrow> py_exception option \<times> CircuitBreaker" where
  "half_open_gate b =
     (if state b = HALF_OPEN then
        (if half_open_calls b \<ge> half_open_max_calls (config b)
         then (Some (CircuitBreakerOpenError
                 (''Circuit breaker '' @ cb_name b @ '' half-open limit exceeded'')), b)
         else (None, b\<lparr>half_open_calls := half_open_calls b + 1\<rparr>))
      else (None, b))"

definition admit :: "CircuitBreaker \<Rightarrow> datetime \<Rightarrow> py_exception option \<times> CircuitBreaker" where
  "admit b now =
     (if state b = OPEN then
        (if should_attempt_reset b now
         then half_open_gate (b\<lparr>state := HALF_OPEN, half_open_calls := 0\<rparr>)
         else (Some (CircuitBreakerOpenError (''Circuit breaker '' @ cb_name b @ '' is OPEN'')), b))
      else half_open_gate b)"

text \<open>
  \<^verbatim>\<open>call(func)\<close>: the gate, then the awaited callable inside
  \<^verbatim>\<open>try ... except Exception\<close>. The result is the outcome seen by the caller, the
  breaker and the world.
\<close>

definition call ::
    "('w \<Rightarrow> datetime) \<Rightarrow> CircuitBreaker \<Rightarrow> ('w \<Rightarrow> 'a outcome \<times> 'w) \<Rightarrow> 'w
       \<Rightarrow> 'a outcome \<times> CircuitBreaker \<times> 'w" where
  "call clock b func w =
     (case admit b (clock w) of
        (Some e, b1) \<Rightarrow> (Raised e, b1, w)
      | (None, b1) \<Rightarrow>
          (case func w of
             (Returned v, w') \<Rightarrow> (Returned v, on_success b1, w')
           | (Raised e, w') \<Rightarrow> (Raised e, on_failure b1 (exn_type e) (clock w'), w')
           | (Escaped e, w') \<Rightarrow> (Escaped e, b1, w')))"

text \<open>
  A sequence of calls on one breaker. Between two calls the world moves on by itself,
  so every call comes with the world it is made in.
\<close>

fun call_seq ::
    "('w \<Rightarrow> datetime) \<Rightarrow> CircuitBreaker \<Rightarrow> (('w \<Rightarrow> 'a outcome \<times> 'w) \<times> 'w) list
       \<Rightarrow> CircuitBreaker" where
  "call_seq clock b [] = b"
| "call_seq clock b ((func, w) # rest) = call_seq clock (fst (snd (call clock b func w))) rest"

section \<open>Retry policy (error\_handling\_system.py)\<close>

record RetryPolicy =
  max_attempts :: int
  base_delay :: real
  max_delay :: real
  backoff_factor :: real
  jitter :: bool

text \<open>The defaults of \<^verbatim>\<open>RetryPolicy.__init__\<close>.\<close>

definition RetryPolicy_default :: RetryPolicy where
  "RetryPolicy_default =
     \<lparr>max_attempts = 3, base_delay = 1, max_delay = 60, backoff_factor = 2, jitter = True\<rparr>"

text \<open>
  Every finite double is below \<open>2 ^ 1024\<close> in magnitude. Rounding is not modelled:
  a result counts as out of range when its exact value reaches \<open>2 ^ 1024\<close>.
\<close>

definition double_limit :: real where
  "double_limit = 2 ^ 1024"

text \<open>
  Python's \<^verbatim>\<open>x ** n\<close> for a float \<open>x\<close> and an int \<open>n\<close>. The int is converted to
  a float first, which raises \<^verbatim>\<open>OverflowError\<close> when it is too large; zero to a
  negative power raises \<^verbatim>\<open>ZeroDivisionError\<close>; and a power that leaves the range of
  the doubles raises \<^verbatim>\<open>OverflowError\<close>.
\<close>

definition float_pow :: "real \<Rightarrow> int \<Rightarrow> py_exception + real" where
  "float_pow x n =
     (if \<bar>real_of_int n\<bar> \<ge> double_limit
      then Inl (PyExc ''OverflowError'' ''int too large to convert to float'')
      else if x = 0 \<and> n < 0
      then Inl (PyExc ''ZeroDivisionError'' ''0.0 cannot be raised to a negative power'')
      else
        let y = (if n \<ge> 0 then x ^ nat n else 1 / x ^ nat (- n))
        in if \<bar>y\<bar> \<ge> double_limit
           then Inl (PyExc ''OverflowError'' ''Numerical result out of range'')
           else Inr y)"

text \<open>
  \<^verbatim>\<open>get_delay(attempt)\<close>. The power is computed before the cap \<^verbatim>\<open>min(..., max_delay)\<close>
  applies, so its exception leaves \<^verbatim>\<open>get_delay\<close>. The parameter \<open>r\<close> is the value
  that \<^verbatim>\<open>random.random()\<close> returns, a float in \<open>[0, 1)\<close>; it is used only with
  jitter.
\<close>

definition get_delay :: "RetryPolicy \<Rightarrow> int \<Rightarrow> real \<Rightarrow> py_exception + real" where
  "get_delay p attempt r =
     (case float_pow (backoff_factor p) (attempt - 1) of
        Inl e \<Rightarrow> Inl e
      | Inr pw \<Rightarrow>
          let delay = min (base_delay p * pw) (max_delay p)
          in Inr (if jitter p then delay * (1/2 + r * (1/2)) else delay))"

text \<open>
  \<^verbatim>\<open>execute(func)\<close>. The \<^verbatim>\<open>for\<close> loop runs over the list of the remaining attempt
  numbers; \<^verbatim>\<open>break\<close> continues with the empty list, where the statement after the
  loop, \<^verbatim>\<open>raise last_exception\<close>, is (raising \<^verbatim>\<open>None\<close> is a \<^verbatim>\<open>TypeError\<close>).
  \<open>rnd attempt\<close> is the random draw made for the delay after that attempt and
  \<open>sleep\<close> is the effect of \<^verbatim>\<open>await asyncio.sleep(delay)\<close> on the world.

  The handler builds its log message from \<^verbatim>\<open>func.__name__\<close> on both of its paths:
  before \<^verbatim>\<open>break\<close> on the final attempt, and after \<^verbatim>\<open>get_delay\<close> and before the
  sleep otherwise. \<open>func_name\<close> is that attribute, \<open>None\<close> for a callable that has
  none (a \<^verbatim>\<open>functools.partial\<close> object); reading it then raises
  \<^verbatim>\<open>AttributeError\<close> out of the handler. Formatting the caught exception and the
  delay into the message is taken to succeed.
\<close>

definition AttributeError_name :: py_exception where
  "AttributeError_name = PyExc ''AttributeError'' ''object has no attribute __name__''"

fun execute_loop ::
    "RetryPolicy \<Rightarrow> (int \<Rightarrow> real) \<Rightarrow> (real \<Rightarrow> 'w \<Rightarrow> 'w) \<Rightarrow> string option
       \<Rightarrow> ('w \<Rightarrow> 'a outcome \<times> 'w)
       \<Rightarrow> py_exception option \<Rightarrow> int list \<Rightarrow> 'w \<Rightarrow> 'a outcome \<times> 'w" where
  "execute_loop p rnd sleep func_name func last_exception [] w =
     (case last_exception of
        None \<Rightarrow> (Raised (PyExc ''TypeError'' ''exceptions must derive from BaseException''), w)
      | Some e \<Rightarrow> (Raised e, w))"
| "execute_loop p rnd sleep func_name func last_exception (attempt # rest) w =
     (case func w of
        (Returned v, w1) \<Rightarrow> (Returned v, w1)
      | (Escaped e, w1) \<Rightarrow> (Escaped e, w1)
      | (Raised e, w1) \<Rightarrow>
          if attempt = max_attempts p
          then (case func_name of
                  None \<Rightarrow> (Raised AttributeError_name, w1)
                | Some n \<Rightarrow> execute_loop p rnd sleep func_name func (Some e) [] w1)
          else (case get_delay p attempt (rnd attempt) of
                  Inl err \<Rightarrow> (Raised err, w1)
                | Inr delay \<Rightarrow>
                    (case func_name of
                       None \<Rightarrow> (Raised AttributeError_name, w1)
                     | Some n \<Rightarrow>
                         execute_loop p rnd sleep func_name func (Some e) rest
                           (sleep delay w1))))"

definition execute ::
    "RetryPolicy \<Rightarrow> (int \<Rightarrow> real) \<Rightarrow> (real \<Rightarrow> 'w \<Rightarrow> 'w) \<Rightarrow> string option
       \<Rightarrow> ('w \<Rightarrow> 'a outcome \<times> 'w) \<Rightarrow> 'w \<Rightarrow> 'a outcome \<times> 'w" where
  "execute p rnd sleep func_name func w =
     execute_loop p rnd sleep func_name func None [1..max_attempts p] w"

section \<open>Observing a retry run\<close>

text \<open>
  The retry loop sees of the callable only the outcome of each invocation. To count
  invocations and waits, the world is a log, the callable is given by the outcome of
  its \<open>k\<close>-th invocation (\<open>k = 0, 1, ...\<close>), and sleeping appends the delay.
\<close>

record run_log =
  invocations :: nat
  waits :: "real list"

definition run_start :: run_log where
  "run_start = \<lparr>invocations = 0, waits = []\<rparr>"

definition scripted :: "(nat \<Rightarrow> 'a outcome) \<Rightarrow> run_log \<Rightarrow> 'a outcome \<times> run_log" where
  "scripted outs l = (outs (invocations l), l\<lparr>invocations := Suc (invocations l)\<rparr>)"

definition log_sleep :: "real \<Rightarrow> run_log \<Rightarrow> run_log" where
  "log_sleep d l = l\<lparr>waits := waits l @ [d]\<rparr>"

section \<open>Sequences of recorded outcomes\<close>

text \<open>
  What the callers of \<^verbatim>\<open>ModelMetrics\<close> do with an outcome: a success with its
  response time goes to \<^verbatim>\<open>update_success\<close>, a failure to \<^verbatim>\<open>update_failure\<close>. Every
  outcome comes with the clock value read while it is recorded.
\<close>

datatype request_outcome = Success real | Failure

fun apply_outcome :: "ModelMetrics \<Rightarrow> datetime \<times> request_outcome \<Rightarrow> ModelMetrics" where
  "apply_outcome m (now, Success response_time) = update_success m now response_time"
| "apply_outcome m (now, Failure) = update_failure m now"

definition record_outcomes ::
    "ModelMetrics \<Rightarrow> (datetime \<times> request_outcome) list \<Rightarrow> ModelMetrics" where
  "record_outcomes m outs = foldl apply_outcome m outs"

text \<open>
  The specification's reading of \<^verbatim>\<open>average_response_time\<close>: the mean of the observed
  latencies, which are the response times of the successful requests, and 0 when there
  is none.
\<close>

fun observed_latencies :: "(datetime \<times> request_outcome) list \<Rightarrow> real list" where
  "observed_latencies [] = []"
| "observed_latencies ((now, Success response_time) # outs) =
     response_time # observed_latencies outs"
| "observed_latencies ((now, Failure) # outs) = observed_latencies outs"

definition spec_average_response_time :: "(datetime \<times> request_outcome) list \<Rightarrow> real" where
  "spec_average_response_time outs =
     (let xs = observed_latencies outs
      in if xs = [] then 0 else sum_list xs / real (length xs))"

section \<open>Example data\<close>

definition ex_model :: "string \<Rightarrow> ModelStatus \<Rightarrow> int option \<Rightarrow> FreeModel" where
  "ex_model i st rpm =
     \<lparr>model_id = i, name = i, description = [], context_length = 0, pricing = Map.empty,
      status = st, metrics = ModelMetrics_init, last_checked = None, rate_limit_rpm = rpm\<rparr>"

definition ex_manager :: OpenRouterModelManager where
  "ex_manager =
     \<lparr>models = [(''c'', ex_model ''c'' UNAVAILABLE None),
                (''a'', ex_model ''a'' AVAILABLE (Some 2)),
                (''b'', ex_model ''b'' AVAILABLE None)],
      circuit_breaker_threshold = 5,
      rate_limit_tracker = Map.empty\<rparr>"

text \<open>
  A callable that raises \<^verbatim>\<open>ConnectionError\<close> and one that returns 7; the world is the
  time itself and neither callable takes time.
\<close>

definition ex_failing :: "real \<Rightarrow> int outcome \<times> real" where
  "ex_failing w = (Raised (PyExc ''ConnectionError'' []), w)"

definition ex_working :: "real \<Rightarrow> int outcome \<times> real" where
  "ex_working w = (Returned 7, w)"

definition ex_clock :: "real \<Rightarrow> datetime" where
  "ex_clock w = w"

text \<open>A script that fails twice and then returns 7.\<close>

definition ex_script :: "nat \<Rightarrow> int outcome" where
  "ex_script k = (if k < 2 then Raised (PyExc ''TimeoutError'' []) else Returned 7)"

definition ex_rnd :: "int \<Rightarrow> real" where
  "ex_rnd attempt = 0"

text \<open>
  Breakers: one that opens after three failures, one that admits no probe while half
  open (\<open>half_open_max_calls = 0\<close>), one with \<open>failure_threshold = 0\<close>, and one
  that is half open after two successful probes.
\<close>

definition ex_breaker :: CircuitBreaker where
  "ex_breaker = CircuitBreaker_init ''api'' (CircuitBreakerConfig_default\<lparr>failure_threshold := 3\<rparr>)"

definition ex_breaker_no_probe :: CircuitBreaker where
  "ex_breaker_no_probe =
     CircuitBreaker_init ''api''
       (CircuitBreakerConfig_default\<lparr>failure_threshold := 1, half_open_max_calls := 0\<rparr>)"

definition ex_breaker_zero :: CircuitBreaker where
  "ex_breaker_zero =
     CircuitBreaker_init ''api'' (CircuitBreakerConfig_default\<lparr>failure_threshold := 0\<rparr>)"

definition ex_half_open :: CircuitBreaker where
  "ex_half_open = ex_breaker\<lparr>state := HALF_OPEN, success_count := 2, half_open_calls := 1,
     failure_count := 3, last_failure_time := Some 0\<rparr>"

definition ex_calls :: "((real \<Rightarrow> int outcome \<times> real) \<times> real) list" where
  "ex_calls = [(ex_failing, 0), (ex_failing, 1), (ex_failing, 2)]"

definition ex_no_calls :: "((real \<Rightarrow> int outcome \<times> real) \<times> real) list" where
  "ex_no_calls = []"

text \<open>
  A manager whose available models differ in health score: at a clock reading of 0,
  \<open>d\<close> scores 0.8, \<open>e\<close> scores 0.9, and \<open>a\<close> and \<open>b\<close> score 1.
\<close>

definition ex_scored :: "string \<Rightarrow> int \<Rightarrow> FreeModel" where
  "ex_scored i failures =
     (ex_model i AVAILABLE None)\<lparr>metrics := ModelMetrics_init\<lparr>consecutive_failures := failures\<rparr>\<rparr>"

definition ex_manager_scored :: OpenRouterModelManager where
  "ex_manager_scored =
     \<lparr>models = [(''c'', ex_model ''c'' UNAVAILABLE None),
                (''d'', ex_scored ''d'' 2),
                (''e'', ex_scored ''e'' 1),
                (''a'', ex_scored ''a'' 0),
                (''b'', ex_scored ''b'' 0)],
      circuit_breaker_threshold = 5,
      rate_limit_tracker = Map.empty\<rparr>"


section \<open>Health score\<close>

text \<open>
  C8: with the status and all other metric fields fixed, the health score does not
  increase when \<open>consecutive_failures\<close> increases; it is exactly 0 for status
  \<open>UNAVAILABLE\<close>; and it always lies between 0 and 1.
\<close>

theorem health_score_monotone:
  "(c1 \<le> c2 \<longrightarrow>
      health_score now (m\<lparr>metrics := (metrics m)\<lparr>consecutive_failures := c2\<rparr>\<rparr>)
        \<le> health_score now (m\<lparr>metrics := (metrics m)\<lparr>consecutive_failures := c1\<rparr>\<rparr>))
   \<and> (status m = UNAVAILABLE \<longrightarrow> health_score now m = 0)
   \<and> 0 \<le> health_score now m \<and> health_score now m \<le> 1"
proof (intro conjI impI)
  assume le: "c1 \<le> c2"
  have pen: "min (1/2) (real_of_int c1 * (1/10)) \<le> min (1/2) (real_of_int c2 * (1/10))"
    using le by (intro min.mono) simp_all
  have clamp: "max 0 (min 1 (a - y + b - c)) \<le> max 0 (min 1 (a - x + b - c))"
    if "x \<le> y" for a b c x y :: real
    using that by (intro max.mono min.mono) simp_all
  show "health_score now (m\<lparr>metrics := (metrics m)\<lparr>consecutive_failures := c2\<rparr>\<rparr>)
        \<le> health_score now (m\<lparr>metrics := (metrics m)\<lparr>consecutive_failures := c1\<rparr>\<rparr>)"
    unfolding health_score_def Let_def using clamp [OF pen] by simp
next
  assume "status m = UNAVAILABLE"
  then show "health_score now m = 0" by (simp add: health_score_def)
next
  show "0 \<le> health_score now m" by (simp add: health_score_def Let_def)
  show "health_score now m \<le> 1" by (simp add: health_score_def Let_def)
qed

theorem health_score_monotone_witness:
  "(0::int) \<le> 3 \<and>
   health_score 0 (ex_model ''a'' AVAILABLE None\<lparr>metrics := ModelMetrics_init\<lparr>consecutive_failures := 3\<rparr>\<rparr>)
     \<le> health_score 0 (ex_model ''a'' AVAILABLE None\<lparr>metrics := ModelMetrics_init\<lparr>consecutive_failures := 0\<rparr>\<rparr>)
   \<and> status (ex_model ''a'' UNAVAILABLE None) = UNAVAILABLE
   \<and> health_score 0 (ex_model ''a'' UNAVAILABLE None) = 0"
  using health_score_monotone [of 0 3 0 "ex_model ''a'' AVAILABLE None"]
    health_score_monotone [of 0 3 0 "ex_model ''a'' UNAVAILABLE None"]
  by (simp add: ex_model_def)

section \<open>Selecting the best model\<close>

lemma max_key_from_split:
  assumes "ps = pre @ best # mid"
    and "\<forall>y\<in>set pre. key y < key best"
    and "\<forall>y\<in>set mid. key y \<le> key best"
  shows "\<exists>pre' post'. ps @ xs = pre' @ max_key_from key best xs # post'
           \<and> (\<forall>y\<in>set pre'. key y < key (max_key_from key best xs))
           \<and> (\<forall>y\<in>set post'. key y \<le> key (max_key_from key best xs))"
  using assms
proof (induction xs arbitrary: ps pre best mid)
  case Nil
  then show ?case by auto
next
  case (Cons x xs)
  show ?case
  proof (cases "key x > key best")
    case True
    have a: "ps @ [x] = (pre @ best # mid) @ x # []" using Cons.prems(1) by simp
    have b: "\<forall>y\<in>set (pre @ best # mid). key y < key x"
      using Cons.prems True by fastforce
    have c: "\<forall>y\<in>set ([]::'a list). key y \<le> key x" by simp
    from Cons.IH [OF a b c] True show ?thesis by simp
  next
    case False
    have a: "ps @ [x] = pre @ best # (mid @ [x])" using Cons.prems(1) by simp
    have c: "\<forall>y\<in>set (mid @ [x]). key y \<le> key best"
      using Cons.prems(3) False by auto
    from Cons.IH [OF a Cons.prems(2) c] False show ?thesis by simp
  qed
qed

lemma max_key_from_first_max:
  "\<exists>pre post. x # xs = pre @ max_key_from key x xs # post
     \<and> (\<forall>y\<in>set pre. key y < key (max_key_from key x xs))
     \<and> (\<forall>y\<in>set post. key y \<le> key (max_key_from key x xs))"
  using max_key_from_split [of "[x]" "[]" x "[]" key xs] by simp

lemma available_models_filter:
  "available_models mgr exclude_models
     = filter (\<lambda>m. status m = AVAILABLE \<and>
                 model_id m \<notin> (case exclude_models of None \<Rightarrow> {} | Some ex \<Rightarrow> ex))
         (map snd (models mgr))"
  unfolding available_models_def
  by (rule filter_cong) (auto split: option.splits)

text \<open>
  C7: \<open>get_best_model\<close> returns no model exactly when no known model is \<open>AVAILABLE\<close>
  with an id outside the exclusion set. A model it returns is known, \<open>AVAILABLE\<close> and
  not excluded; no eligible known model has a greater health score; and among the
  eligible known models, taken in insertion order, every one before it scores strictly
  less (and every one after it at most as much), so that it is the first of those with
  the maximal score.
\<close>

theorem get_best_model_selects:
  "(get_best_model mgr exclude_models now = None \<longleftrightarrow>
      \<not> (\<exists>m \<in> snd ` set (models mgr). status m = AVAILABLE \<and>
            model_id m \<notin> (case exclude_models of None \<Rightarrow> {} | Some ex \<Rightarrow> ex)))
   \<and> (\<forall>best. get_best_model mgr exclude_models now = Some best \<longrightarrow>
         best \<in> snd ` set (models mgr) \<and> status best = AVAILABLE \<and>
         model_id best \<notin> (case exclude_models of None \<Rightarrow> {} | Some ex \<Rightarrow> ex) \<and>
         (\<forall>m \<in> snd ` set (models mgr).
            status m = AVAILABLE \<and>
            model_id m \<notin> (case exclude_models of None \<Rightarrow> {} | Some ex \<Rightarrow> ex)
            \<longrightarrow> health_score now m \<le> health_score now best) \<and>
         (\<exists>pre post.
            filter (\<lambda>m. status m = AVAILABLE \<and>
                      model_id m \<notin> (case exclude_models of None \<Rightarrow> {} | Some ex \<Rightarrow> ex))
              (map snd (models mgr)) = pre @ best # post \<and>
            (\<forall>m\<in>set pre. health_score now m < health_score now best) \<and>
            (\<forall>m\<in>set post. health_score now m \<le> health_score now best)))"
proof -
  let ?ok = "\<lambda>m. status m = AVAILABLE \<and>
                 model_id m \<notin> (case exclude_models of None \<Rightarrow> {} | Some ex \<Rightarrow> ex)"
  let ?el = "filter ?ok (map snd (models mgr))"
  have av: "available_models mgr exclude_models = ?el" by (rule available_models_filter)
  have none: "get_best_model mgr exclude_models now = None \<longleftrightarrow>
      \<not> (\<exists>m \<in> snd ` set (models mgr). ?ok m)"
  proof -
    have "get_best_model mgr exclude_models now = None \<longleftrightarrow> ?el = []"
      by (simp add: get_best_model_def av split: list.splits)
    also have "\<dots> \<longleftrightarrow> \<not> (\<exists>m \<in> snd ` set (models mgr). ?ok m)"
      by (auto simp: filter_empty_conv)
    finally show ?thesis .
  qed
  have some: "best \<in> snd ` set (models mgr) \<and> ?ok best \<and>
         (\<forall>m \<in> snd ` set (models mgr). ?ok m \<longrightarrow> health_score now m \<le> health_score now best) \<and>
         (\<exists>pre post. ?el = pre @ best # post \<and>
            (\<forall>m\<in>set pre. health_score now m < health_score now best) \<and>
            (\<forall>m\<in>set post. health_score now m \<le> health_score now best))"
    if sel: "get_best_model mgr exclude_models now = Some best" for best
  proof -
    from sel obtain m ms where el: "?el = m # ms"
      and best: "best = max_key_from (health_score now) m ms"
      by (auto simp: get_best_model_def av split: list.splits)
    from max_key_from_first_max [of m ms "health_score now"] el best
    obtain pre post where sp: "?el = pre @ best # post"
      and lt: "\<forall>y\<in>set pre. health_score now y < health_score now best"
      and le: "\<forall>y\<in>set post. health_score now y \<le> health_score now best"
      by auto
    have mem: "best \<in> set ?el" unfolding sp by simp
    then have known: "best \<in> snd ` set (models mgr)" and ok: "?ok best" by auto
    have maxi: "\<forall>m \<in> snd ` set (models mgr). ?ok m \<longrightarrow> health_score now m \<le> health_score now best"
    proof (intro ballI impI)
      fix x assume "x \<in> snd ` set (models mgr)" and "?ok x"
      then have "x \<in> set ?el" by auto
      then have "x \<in> set pre \<or> x = best \<or> x \<in> set post" unfolding sp by auto
      with lt le show "health_score now x \<le> health_score now best" by fastforce
    qed
    from known ok maxi sp lt le show ?thesis by blast
  qed
  from none some show ?thesis by blast
qed

lemma ex_scored_best:
  "get_best_model ex_manager_scored None 0 = Some (ex_scored ''a'' 0)"
  "get_best_model ex_manager_scored (Some {''a''}) 0 = Some (ex_scored ''b'' 0)"
  "get_best_model ex_manager_scored (Some {''a'', ''b''}) 0 = Some (ex_scored ''e'' 1)"
  "get_best_model ex_manager_scored (Some {''a'', ''b'', ''d'', ''e''}) 0 = None"
  by (simp_all add: get_best_model_def available_models_def ex_manager_scored_def ex_scored_def
        ex_model_def health_score_def ModelMetrics_init_def Let_def)

lemma ex_scored_scores:
  "health_score 0 (ex_scored ''d'' 2) = 8/10"
  "health_score 0 (ex_scored ''e'' 1) = 9/10"
  "health_score 0 (ex_scored ''a'' 0) = 1"
  "health_score 0 (ex_scored ''b'' 0) = 1"
  by (simp_all add: ex_scored_def ex_model_def health_score_def ModelMetrics_init_def Let_def)

theorem get_best_model_selects_witness:
  "map snd (models ex_manager_scored)
     = [ex_model ''c'' UNAVAILABLE None, ex_scored ''d'' 2, ex_scored ''e'' 1,
        ex_scored ''a'' 0, ex_scored ''b'' 0]
   \<and> health_score 0 (ex_scored ''d'' 2) = 8/10
   \<and> health_score 0 (ex_scored ''e'' 1) = 9/10
   \<and> health_score 0 (ex_scored ''a'' 0) = 1
   \<and> health_score 0 (ex_scored ''b'' 0) = 1
   \<and> get_best_model ex_manager_scored None 0 = Some (ex_scored ''a'' 0)
   \<and> status (ex_scored ''a'' 0) = AVAILABLE
   \<and> health_score 0 (ex_scored ''e'' 1) \<le> health_score 0 (ex_scored ''a'' 0)
   \<and> get_best_model ex_manager_scored (Some {''a''}) 0 = Some (ex_scored ''b'' 0)
   \<and> model_id (ex_scored ''b'' 0) \<notin> {''a''}
   \<and> get_best_model ex_manager_scored (Some {''a'', ''b''}) 0 = Some (ex_scored ''e'' 1)
   \<and> get_best_model ex_manager_scored (Some {''a'', ''b'', ''d'', ''e''}) 0 = None"
proof -
  have ms: "map snd (models ex_manager_scored)
     = [ex_model ''c'' UNAVAILABLE None, ex_scored ''d'' 2, ex_scored ''e'' 1,
        ex_scored ''a'' 0, ex_scored ''b'' 0]"
    by (simp add: ex_manager_scored_def)
  have e: "ex_scored ''e'' 1 \<in> snd ` set (models ex_manager_scored)"
    "status (ex_scored ''e'' 1) = AVAILABLE" "model_id (ex_scored ''e'' 1) \<notin> {}"
    by (simp_all add: ex_manager_scored_def ex_scored_def ex_model_def)
  from get_best_model_selects [of ex_manager_scored None 0] ex_scored_best(1)
  have st: "status (ex_scored ''a'' 0) = AVAILABLE"
    and mx: "\<forall>m \<in> snd ` set (models ex_manager_scored).
            status m = AVAILABLE \<and> model_id m \<notin> {}
            \<longrightarrow> health_score 0 m \<le> health_score 0 (ex_scored ''a'' 0)"
    by simp_all
  from mx e have le: "health_score 0 (ex_scored ''e'' 1) \<le> health_score 0 (ex_scored ''a'' 0)"
    by blast
  from get_best_model_selects [of ex_manager_scored "Some {''a''}" 0] ex_scored_best(2)
  have ex: "model_id (ex_scored ''b'' 0) \<notin> {''a''}" by simp
  from ms ex_scored_scores ex_scored_best st le ex show ?thesis by blast
qed

section \<open>Recording request outcomes\<close>

lemma map_of_update_same: "map_of (AList.update k v al) k = Some v"
  by (simp add: update_conv')

text \<open>
  C9: for a known model, \<open>record_request\<close> with \<open>success = True\<close> and no response
  time records a failure: \<open>total_requests\<close>, \<open>failed_requests\<close> and
  \<open>consecutive_failures\<close> grow by one, \<open>last_failure\<close> is set to the clock reading,
  the success fields stay as they were, and the status becomes \<open>UNAVAILABLE\<close> when the
  new \<open>consecutive_failures\<close> reaches \<open>circuit_breaker_threshold\<close> (and is unchanged
  otherwise).
\<close>

theorem record_request_success_without_time:
  assumes "map_of (models mgr) mid = Some model"
  shows "\<exists>model'. map_of (models (record_request mgr mid True None now)) mid = Some model'
     \<and> total_requests (metrics model') = total_requests (metrics model) + 1
     \<and> successful_requests (metrics model') = successful_requests (metrics model)
     \<and> failed_requests (metrics model') = failed_requests (metrics model) + 1
     \<and> consecutive_failures (metrics model') = consecutive_failures (metrics model) + 1
     \<and> last_failure (metrics model') = Some now
     \<and> last_success (metrics model') = last_success (metrics model)
     \<and> (consecutive_failures (metrics model) + 1 \<ge> circuit_breaker_threshold mgr
          \<longrightarrow> status model' = UNAVAILABLE)
     \<and> (consecutive_failures (metrics model) + 1 < circuit_breaker_threshold mgr
          \<longrightarrow> status model' = status model)"
  using assms
  by (simp add: record_request_def Let_def map_of_update_same update_failure_def
      update_error_rate_def)

theorem record_request_success_without_time_witness:
  "map_of (models ex_manager) ''a'' = Some (ex_model ''a'' AVAILABLE (Some 2))
   \<and> (\<exists>model'. map_of (models (record_request ex_manager ''a'' True None 9)) ''a'' = Some model'
        \<and> failed_requests (metrics model') = 1 \<and> consecutive_failures (metrics model') = 1
        \<and> successful_requests (metrics model') = 0
        \<and> last_failure (metrics model') = Some 9 \<and> status model' = AVAILABLE)
   \<and> (\<exists>model'. map_of (models (record_request (ex_manager\<lparr>circuit_breaker_threshold := 1\<rparr>)
                                   ''a'' True None 9)) ''a'' = Some model'
        \<and> status model' = UNAVAILABLE)"
proof -
  have h: "map_of (models ex_manager) ''a'' = Some (ex_model ''a'' AVAILABLE (Some 2))"
    by (simp add: ex_manager_def)
  have h': "map_of (models (ex_manager\<lparr>circuit_breaker_threshold := 1\<rparr>)) ''a''
              = Some (ex_model ''a'' AVAILABLE (Some 2))"
    by (simp add: ex_manager_def)
  have v: "failed_requests (metrics (ex_model ''a'' AVAILABLE (Some 2))) = 0"
    "consecutive_failures (metrics (ex_model ''a'' AVAILABLE (Some 2))) = 0"
    "successful_requests (metrics (ex_model ''a'' AVAILABLE (Some 2))) = 0"
    "status (ex_model ''a'' AVAILABLE (Some 2)) = AVAILABLE"
    "circuit_breaker_threshold ex_manager = 5"
    by (simp_all add: ex_model_def ModelMetrics_init_def ex_manager_def)
  from record_request_success_without_time [OF h, of 9]
    record_request_success_without_time [OF h', of 9] h v
  show ?thesis by auto
qed

text \<open>
  C10: for a known model, one \<open>record_request\<close> with \<open>success = True\<close> and a
  response time leaves the model \<open>AVAILABLE\<close> whatever its status was before, also
  when it was \<open>UNAVAILABLE\<close>; its metrics are those of \<open>update_success\<close>.
\<close>

theorem record_request_success_restores:
  assumes "map_of (models mgr) mid = Some model"
  shows "\<exists>model'. map_of (models (record_request mgr mid True (Some rt) now)) mid = Some model'
     \<and> status model' = AVAILABLE
     \<and> metrics model' = update_success (metrics model) now rt"
  using assms
  by (simp add: record_request_def Let_def map_of_update_same)

theorem record_request_success_restores_witness:
  "map_of (models ex_manager) ''c'' = Some (ex_model ''c'' UNAVAILABLE None)
   \<and> status (ex_model ''c'' UNAVAILABLE None) = UNAVAILABLE
   \<and> (\<exists>model'. map_of (models (record_request ex_manager ''c'' True (Some 1) 9)) ''c'' = Some model'
        \<and> status model' = AVAILABLE)"
proof -
  have h: "map_of (models ex_manager) ''c'' = Some (ex_model ''c'' UNAVAILABLE None)"
    by (simp add: ex_manager_def)
  have s: "status (ex_model ''c'' UNAVAILABLE None) = UNAVAILABLE" by (simp add: ex_model_def)
  from record_request_success_restores [OF h, of 1 9] h s show ?thesis by blast
qed

section \<open>Rate limiting\<close>




section \<open>The average response time\<close>

lemma record_outcomes_snoc:
  "record_outcomes m (outs @ [x]) = apply_outcome (record_outcomes m outs) x"
  by (simp add: record_outcomes_def)

lemma observed_latencies_snoc_success:
  "observed_latencies (outs @ [(now, Success x)]) = observed_latencies outs @ [x]"
  by (induction outs rule: observed_latencies.induct) simp_all

lemma successes_running_sum:
  assumes "\<forall>out\<in>set outs. \<exists>now x. out = (now, Success x)"
  shows "total_requests (record_outcomes ModelMetrics_init outs) = int (length outs)
       \<and> length (observed_latencies outs) = length outs
       \<and> average_response_time (record_outcomes ModelMetrics_init outs) * real (length outs)
           = sum_list (observed_latencies outs)"
  using assms
proof (induction outs rule: rev_induct)
  case Nil
  then show ?case by (simp add: record_outcomes_def ModelMetrics_init_def)
next
  case (snoc out outs)
  then obtain now x where out: "out = (now, Success x)" by auto
  let ?m = "record_outcomes ModelMetrics_init outs"
  from snoc have tot: "total_requests ?m = int (length outs)"
    and len: "length (observed_latencies outs) = length outs"
    and avg: "average_response_time ?m * real (length outs) = sum_list (observed_latencies outs)"
    by simp_all
  have tot': "total_requests (update_success ?m now x) = int (length outs) + 1"
    by (simp add: update_success_def update_error_rate_def Let_def tot)
  have avg': "average_response_time (update_success ?m now x) * (real (length outs) + 1)
                = sum_list (observed_latencies outs) + x"
  proof (cases "outs = []")
    case True
    then show ?thesis
      using tot by (simp add: update_success_def update_error_rate_def Let_def)
  next
    case False
    then have "int (length outs) + 1 \<noteq> 1" by simp
    then show ?thesis
      using tot avg by (simp add: update_success_def update_error_rate_def Let_def
          add.commute [of 1])
  qed
  have "real (length (outs @ [out])) = real (length outs) + 1" by simp
  with avg' have avg'': "average_response_time (update_success ?m now x)
      * real (length (outs @ [out])) = sum_list (observed_latencies outs) + x"
    by (simp only:)
  have step: "record_outcomes ModelMetrics_init (outs @ [out]) = update_success ?m now x"
    by (simp add: record_outcomes_snoc out)
  have lat: "observed_latencies (outs @ [out]) = observed_latencies outs @ [x]"
    by (simp add: out observed_latencies_snoc_success)
  show ?case
    unfolding step lat using tot' avg'' len by simp
qed

lemma successes_running_mean:
  assumes "\<forall>out\<in>set outs. \<exists>now x. out = (now, Success x)"
  shows "average_response_time (record_outcomes ModelMetrics_init outs)
           = spec_average_response_time outs"
proof (cases "outs = []")
  case True
  then show ?thesis
    by (simp add: record_outcomes_def ModelMetrics_init_def spec_average_response_time_def)
next
  case False
  from successes_running_sum [OF assms]
  have len: "length (observed_latencies outs) = length outs"
    and avg: "average_response_time (record_outcomes ModelMetrics_init outs) * real (length outs)
           = sum_list (observed_latencies outs)"
    by simp_all
  from False len have ne: "observed_latencies outs \<noteq> []" by auto
  from False have pos: "real (length outs) \<noteq> 0" by simp
  from avg pos have "average_response_time (record_outcomes ModelMetrics_init outs)
      = sum_list (observed_latencies outs) / real (length outs)"
    by (simp add: field_simps)
  with ne len show ?thesis by (simp add: spec_average_response_time_def Let_def)
qed

text \<open>
  C2: the first request fails and the second succeeds after 4 seconds. The only observed
  latency is 4, so the mean of the observed latencies is 4, but \<open>update_success\<close>
  divides by \<open>total_requests\<close>, which also counts the failure, and stores 2.
\<close>

theorem average_response_time_counts_failures:
  "average_response_time (record_outcomes ModelMetrics_init [(1, Failure), (2, Success 4)]) = 2
   \<and> spec_average_response_time [(1, Failure), (2, Success 4)] = 4"
  by (simp add: record_outcomes_def update_success_def update_failure_def update_error_rate_def
      ModelMetrics_init_def spec_average_response_time_def Let_def)

section \<open>Circuit breaker\<close>

lemma config_on_failure: "config (on_failure b et now) = config b"
  by (simp add: on_failure_def Let_def)

lemma on_failure_closed:
  assumes "state b = CLOSED"
  shows "state (on_failure b et now)
           = (if failure_count b + 1 \<ge> failure_threshold (config b) then OPEN else CLOSED)"
    and "failure_count (on_failure b et now) = failure_count b + 1"
    and "last_failure_time (on_failure b et now) = Some now"
  using assms by (simp_all add: on_failure_def Let_def)

lemma admit_closed: "state b = CLOSED \<Longrightarrow> admit b now = (None, b)"
  by (simp add: admit_def half_open_gate_def)

lemma call_closed_raised:
  assumes "state b = CLOSED" and "func w = (Raised e, w')"
  shows "call clock b func w = (Raised e, on_failure b (exn_type e) (clock w'), w')"
  using assms by (simp add: call_def admit_closed)

lemma call_seq_append:
  "call_seq clock b (xs @ ys) = call_seq clock (call_seq clock b xs) ys"
  by (induction xs arbitrary: b) auto

lemma call_seq_closed_failures:
  assumes "state b = CLOSED"
    and "\<forall>(func, w)\<in>set cs. \<exists>e w'. func w = (Raised e, w')"
    and "failure_count b + int (length cs) < failure_threshold (config b)"
  shows "state (call_seq clock b cs) = CLOSED
       \<and> failure_count (call_seq clock b cs) = failure_count b + int (length cs)
       \<and> config (call_seq clock b cs) = config b"
  using assms
proof (induction cs arbitrary: b)
  case Nil
  then show ?case by simp
next
  case (Cons c cs)
  obtain func w where c: "c = (func, w)" by (cases c)
  from Cons.prems(2) c obtain e w' where f: "func w = (Raised e, w')" by auto
  let ?b = "on_failure b (exn_type e) (clock w')"
  have step: "call clock b func w = (Raised e, ?b, w')"
    using Cons.prems(1) f by (rule call_closed_raised)
  have st: "state ?b = CLOSED" and fc: "failure_count ?b = failure_count b + 1"
    and cf: "config ?b = config b"
    using Cons.prems(1,3) by (simp_all add: on_failure_closed config_on_failure)
  have rest: "\<forall>(func, w)\<in>set cs. \<exists>e w'. func w = (Raised e, w')"
    using Cons.prems(2) by simp
  have bound: "failure_count ?b + int (length cs) < failure_threshold (config ?b)"
    using Cons.prems(3) fc cf by simp
  from Cons.IH [OF st rest bound] fc cf show ?case
    by (simp add: c step)
qed

lemma call_open_rejected:
  assumes "state b = OPEN" and "last_failure_time b = Some t"
    and "clock w - t < recovery_timeout (config b)"
  shows "call clock b func w
           = (Raised (CircuitBreakerOpenError (''Circuit breaker '' @ cb_name b @ '' is OPEN'')), b, w)"
  using assms by (simp add: call_def admit_def should_attempt_reset_def)

lemma call_seq_open_rejected:
  assumes "state b = OPEN" and "last_failure_time b = Some t"
    and "\<forall>(func, w)\<in>set cs. clock w - t < recovery_timeout (config b)"
  shows "call_seq clock b cs = b"
  using assms
proof (induction cs)
  case Nil
  then show ?case by simp
next
  case (Cons c cs)
  obtain func w where c: "c = (func, w)" by (cases c)
  have "clock w - t < recovery_timeout (config b)" using Cons.prems(3) c by simp
  from call_open_rejected [of b t clock w func, OF Cons.prems(1,2) this]
  have "fst (snd (call clock b func w)) = b" by simp
  with Cons show ?case by (simp add: c)
qed

lemma admit_open_elapsed:
  assumes "state b = OPEN" and "last_failure_time b = Some t"
    and "clock w - t \<ge> recovery_timeout (config b)"
    and "1 \<le> half_open_max_calls (config b)"
  shows "admit b (clock w) = (None, b\<lparr>state := HALF_OPEN, half_open_calls := 1\<rparr>)"
  using assms by (simp add: admit_def should_attempt_reset_def half_open_gate_def)

lemma call_admitted:
  assumes "admit b (clock w) = (None, b1)"
  shows "fst (call clock b func w) = fst (func w) \<and> snd (snd (call clock b func w)) = snd (func w)"
  using assms by (cases "func w") (simp add: call_def split: outcome.splits)

text \<open>
  C3, as stated, at two concrete inputs. With \<open>half_open_max_calls = 0\<close> and
  \<open>failure_threshold = 1\<close>, one failed call opens the breaker at time 0; the call at
  time 100, after the recovery timeout of 60 seconds, moves it to \<open>HALF_OPEN\<close> and is
  then rejected by the half-open limit, so the callable is not invoked. With
  \<open>failure_threshold = 0\<close>, the breaker is still \<open>CLOSED\<close> after exactly zero failed
  calls.
\<close>

theorem breaker_probe_counterexample:
  "state (call_seq ex_clock ex_breaker_no_probe [(ex_failing, 0)]) = OPEN
   \<and> last_failure_time (call_seq ex_clock ex_breaker_no_probe [(ex_failing, 0)]) = Some 0
   \<and> recovery_timeout (config (call_seq ex_clock ex_breaker_no_probe [(ex_failing, 0)])) = 60
   \<and> call ex_clock (call_seq ex_clock ex_breaker_no_probe [(ex_failing, 0)]) ex_working 100
       = (Raised (CircuitBreakerOpenError ''Circuit breaker api half-open limit exceeded''),
          (call_seq ex_clock ex_breaker_no_probe [(ex_failing, 0)])
            \<lparr>state := HALF_OPEN, half_open_calls := 0\<rparr>,
          100)
   \<and> fst (admit (call_seq ex_clock ex_breaker_no_probe [(ex_failing, 0)]) (ex_clock 100)) \<noteq> None
   \<and> int (length ex_no_calls) = failure_threshold (config ex_breaker_zero)
   \<and> state (call_seq ex_clock ex_breaker_zero ex_no_calls) = CLOSED"
  by (simp add: ex_breaker_no_probe_def ex_breaker_zero_def ex_no_calls_def ex_failing_def
      ex_working_def ex_clock_def call_def admit_def half_open_gate_def on_failure_def
      should_attempt_reset_def CircuitBreaker_init_def CircuitBreakerConfig_default_def Let_def)

text \<open>
  C3 (amended): for a breaker with \<open>failure_threshold \<ge> 1\<close> and
  \<open>half_open_max_calls \<ge> 1\<close> that is \<open>CLOSED\<close> with \<open>failure_count = 0\<close>, after
  exactly \<open>failure_threshold\<close> consecutive failed calls the state is \<open>OPEN\<close>. From
  then on, a call made less than \<open>recovery_timeout\<close> after \<open>last_failure_time\<close>
  raises \<open>CircuitBreakerOpenError\<close>, leaves the world untouched (the callable is not
  invoked) and leaves the breaker as it is, so the same holds for every further such
  call. A call made once \<open>recovery_timeout\<close> has elapsed passes the gate with the
  breaker \<open>HALF_OPEN\<close> and \<open>half_open_calls = 1\<close>, and its outcome and world are those
  of the callable.
\<close>

theorem breaker_opens_at_threshold:
  fixes cs :: "(('w \<Rightarrow> 'a outcome \<times> 'w) \<times> 'w) list"
  assumes "state b = CLOSED" and "failure_count b = 0"
    and "1 \<le> failure_threshold (config b)"
    and "1 \<le> half_open_max_calls (config b)"
    and "int (length cs) = failure_threshold (config b)"
    and "\<forall>(func, w)\<in>set cs. \<exists>e w'. func w = (Raised e, w')"
  shows "state (call_seq clock b cs) = OPEN
       \<and> (\<exists>t. last_failure_time (call_seq clock b cs) = Some t
            \<and> (\<forall>(func :: 'w \<Rightarrow> 'a outcome \<times> 'w) w. clock w - t < recovery_timeout (config b) \<longrightarrow>
                  (\<exists>msg. call clock (call_seq clock b cs) func w
                    = (Raised (CircuitBreakerOpenError msg), call_seq clock b cs, w)))
            \<and> (\<forall>more :: (('w \<Rightarrow> 'a outcome \<times> 'w) \<times> 'w) list. (\<forall>(func, w)\<in>set more. clock w - t < recovery_timeout (config b))
                  \<longrightarrow> call_seq clock (call_seq clock b cs) more = call_seq clock b cs)
            \<and> (\<forall>(func :: 'w \<Rightarrow> 'a outcome \<times> 'w) w. clock w - t \<ge> recovery_timeout (config b) \<longrightarrow>
                  admit (call_seq clock b cs) (clock w)
                    = (None, (call_seq clock b cs)\<lparr>state := HALF_OPEN, half_open_calls := 1\<rparr>)
                  \<and> fst (call clock (call_seq clock b cs) func w) = fst (func w)
                  \<and> snd (snd (call clock (call_seq clock b cs) func w)) = snd (func w)))"
proof -
  let ?T = "failure_threshold (config b)"
  let ?b' = "call_seq clock b cs"
  from assms(3,5) have ne: "cs \<noteq> []" by auto
  then have split: "cs = butlast cs @ [last cs]" by simp
  obtain func w where lst: "last cs = (func, w)" by (cases "last cs")
  have mem: "(func, w) \<in> set cs" using ne lst by (metis last_in_set)
  with assms(6) obtain e w' where f: "func w = (Raised e, w')" by auto
  have pre_fail: "\<forall>(func, w)\<in>set (butlast cs). \<exists>e w'. func w = (Raised e, w')"
    using assms(6) by (meson in_set_butlastD)
  have len_pos: "0 < length cs" using ne by simp
  have "length (butlast cs) = length cs - 1" by simp
  with len_pos have len_pre: "int (length (butlast cs)) = int (length cs) - 1"
    by linarith
  have pre_len: "failure_count b + int (length (butlast cs)) < ?T"
    using assms(2,5) len_pre by simp
  let ?b1 = "call_seq clock b (butlast cs)"
  from call_seq_closed_failures [OF assms(1) pre_fail pre_len, of clock]
  have st1: "state ?b1 = CLOSED"
    and fc1: "failure_count ?b1 = failure_count b + int (length (butlast cs))"
    and cf1: "config ?b1 = config b"
    by simp_all
  have "?b' = call_seq clock ?b1 [(func, w)]"
    using split lst call_seq_append [of clock b "butlast cs" "[last cs]"] by simp
  also have "\<dots> = on_failure ?b1 (exn_type e) (clock w')"
    using call_closed_raised [of ?b1 func w e w' clock, OF st1 f] by simp
  finally have b': "?b' = on_failure ?b1 (exn_type e) (clock w')" .
  have reach: "failure_count ?b1 + 1 \<ge> failure_threshold (config ?b1)"
    using fc1 cf1 assms(2,5) len_pre by simp
  have opened: "state ?b' = OPEN"
    unfolding b' using on_failure_closed(1) [OF st1] reach by simp
  have lft: "last_failure_time ?b' = Some (clock w')"
    unfolding b' using on_failure_closed(3) [OF st1] by simp
  have cf: "config ?b' = config b"
    unfolding b' by (simp add: config_on_failure cf1)
  have rejected: "\<forall>(func :: 'w \<Rightarrow> 'a outcome \<times> 'w) w. clock w - clock w' < recovery_timeout (config b) \<longrightarrow>
                  (\<exists>msg. call clock ?b' func w = (Raised (CircuitBreakerOpenError msg), ?b', w))"
  proof (intro allI impI)
    fix g :: "'w \<Rightarrow> 'a outcome \<times> 'w" and v
    assume "clock v - clock w' < recovery_timeout (config b)"
    then have "clock v - clock w' < recovery_timeout (config ?b')" by (simp add: cf)
    from call_open_rejected [of ?b' "clock w'" clock v g, OF opened lft this]
    show "\<exists>msg. call clock ?b' g v = (Raised (CircuitBreakerOpenError msg), ?b', v)" by blast
  qed
  have stays: "\<forall>more :: (('w \<Rightarrow> 'a outcome \<times> 'w) \<times> 'w) list. (\<forall>(func, w)\<in>set more. clock w - clock w' < recovery_timeout (config b))
                  \<longrightarrow> call_seq clock ?b' more = ?b'"
  proof (intro allI impI)
    fix more :: "(('w \<Rightarrow> 'a outcome \<times> 'w) \<times> 'w) list"
    assume "\<forall>(func, w)\<in>set more. clock w - clock w' < recovery_timeout (config b)"
    then have "\<forall>(func, w)\<in>set more. clock w - clock w' < recovery_timeout (config ?b')"
      by (simp add: cf)
    from call_seq_open_rejected [OF opened lft this] show "call_seq clock ?b' more = ?b'" .
  qed
  have probe: "\<forall>(func :: 'w \<Rightarrow> 'a outcome \<times> 'w) w. clock w - clock w' \<ge> recovery_timeout (config b) \<longrightarrow>
                  admit ?b' (clock w) = (None, ?b'\<lparr>state := HALF_OPEN, half_open_calls := 1\<rparr>)
                  \<and> fst (call clock ?b' func w) = fst (func w)
                  \<and> snd (snd (call clock ?b' func w)) = snd (func w)"
  proof (intro allI impI)
    fix g :: "'w \<Rightarrow> 'a outcome \<times> 'w" and v
    assume "clock v - clock w' \<ge> recovery_timeout (config b)"
    then have el: "clock v - clock w' \<ge> recovery_timeout (config ?b')" by (simp add: cf)
    have hm: "1 \<le> half_open_max_calls (config ?b')" using assms(4) by (simp add: cf)
    have ad: "admit ?b' (clock v) = (None, ?b'\<lparr>state := HALF_OPEN, half_open_calls := 1\<rparr>)"
      using opened lft el hm by (rule admit_open_elapsed)
    from ad call_admitted [of ?b' clock v "?b'\<lparr>state := HALF_OPEN, half_open_calls := 1\<rparr>" g, OF ad]
    show "admit ?b' (clock v) = (None, ?b'\<lparr>state := HALF_OPEN, half_open_calls := 1\<rparr>)
                  \<and> fst (call clock ?b' g v) = fst (g v)
                  \<and> snd (snd (call clock ?b' g v)) = snd (g v)"
      by simp
  qed
  from opened lft rejected stays probe show ?thesis by blast
qed

lemma ex_breaker_opened:
  "state (call_seq ex_clock ex_breaker ex_calls) = OPEN
   \<and> last_failure_time (call_seq ex_clock ex_breaker ex_calls) = Some 2
   \<and> failure_count (call_seq ex_clock ex_breaker ex_calls) = 3"
  by (simp add: ex_calls_def ex_breaker_def ex_failing_def ex_clock_def call_def admit_def
      half_open_gate_def on_failure_def CircuitBreaker_init_def CircuitBreakerConfig_default_def
      Let_def)

theorem breaker_opens_at_threshold_witness:
  "state ex_breaker = CLOSED \<and> failure_count ex_breaker = 0
   \<and> 1 \<le> failure_threshold (config ex_breaker)
   \<and> 1 \<le> half_open_max_calls (config ex_breaker)
   \<and> int (length ex_calls) = failure_threshold (config ex_breaker)
   \<and> ex_calls = [(ex_failing, 0), (ex_failing, 1), (ex_failing, 2)]
   \<and> fst (ex_failing 0) = Raised (PyExc ''ConnectionError'' [])
   \<and> fst (ex_failing 1) = Raised (PyExc ''ConnectionError'' [])
   \<and> fst (ex_failing 2) = Raised (PyExc ''ConnectionError'' [])
   \<and> state (call_seq ex_clock ex_breaker ex_calls) = OPEN
   \<and> (\<exists>msg. call ex_clock (call_seq ex_clock ex_breaker ex_calls) ex_working 10
         = (Raised (CircuitBreakerOpenError msg), call_seq ex_clock ex_breaker ex_calls, 10))
   \<and> fst (call ex_clock (call_seq ex_clock ex_breaker ex_calls) ex_working 62) = Returned 7"
proof -
  have h1: "state ex_breaker = CLOSED" and h2: "failure_count ex_breaker = 0"
    and h3: "1 \<le> failure_threshold (config ex_breaker)"
    and h4: "1 \<le> half_open_max_calls (config ex_breaker)"
    by (simp_all add: ex_breaker_def CircuitBreaker_init_def CircuitBreakerConfig_default_def)
  have h5: "int (length ex_calls) = failure_threshold (config ex_breaker)"
    by (simp add: ex_calls_def ex_breaker_def CircuitBreaker_init_def
        CircuitBreakerConfig_default_def)
  have h6: "\<forall>(func, w)\<in>set ex_calls. \<exists>e w'. func w = (Raised e, w')"
    by (simp add: ex_calls_def ex_failing_def)
  have rt: "recovery_timeout (config ex_breaker) = 60"
    by (simp add: ex_breaker_def CircuitBreaker_init_def CircuitBreakerConfig_default_def)
  from breaker_opens_at_threshold [OF h1 h2 h3 h4 h5 h6, of ex_clock]
  obtain t where op: "state (call_seq ex_clock ex_breaker ex_calls) = OPEN"
    and t: "last_failure_time (call_seq ex_clock ex_breaker ex_calls) = Some t"
    and rej: "\<forall>(func :: real \<Rightarrow> int outcome \<times> real) w.
                ex_clock w - t < recovery_timeout (config ex_breaker) \<longrightarrow>
                  (\<exists>msg. call ex_clock (call_seq ex_clock ex_breaker ex_calls) func w
                    = (Raised (CircuitBreakerOpenError msg),
                       call_seq ex_clock ex_breaker ex_calls, w))"
    and adm: "\<forall>(func :: real \<Rightarrow> int outcome \<times> real) w.
                ex_clock w - t \<ge> recovery_timeout (config ex_breaker) \<longrightarrow>
                  fst (call ex_clock (call_seq ex_clock ex_breaker ex_calls) func w)
                    = fst (func w)"
    by blast
  from t ex_breaker_opened have t2: "t = 2" by simp
  have "ex_clock 10 - t < recovery_timeout (config ex_breaker)"
    by (simp add: t2 rt ex_clock_def)
  with rej have r10: "\<exists>msg. call ex_clock (call_seq ex_clock ex_breaker ex_calls) ex_working 10
         = (Raised (CircuitBreakerOpenError msg), call_seq ex_clock ex_breaker ex_calls, 10)"
    by blast
  have "ex_clock 62 - t \<ge> recovery_timeout (config ex_breaker)"
    by (simp add: t2 rt ex_clock_def)
  with adm have "fst (call ex_clock (call_seq ex_clock ex_breaker ex_calls) ex_working 62)
                   = fst (ex_working 62)"
    by blast
  then have r62: "fst (call ex_clock (call_seq ex_clock ex_breaker ex_calls) ex_working 62)
                   = Returned 7"
    by (simp add: ex_working_def)
  have h7: "fst (ex_failing 0) = Raised (PyExc ''ConnectionError'' [])"
    "fst (ex_failing 1) = Raised (PyExc ''ConnectionError'' [])"
    "fst (ex_failing 2) = Raised (PyExc ''ConnectionError'' [])"
    by (simp_all add: ex_failing_def)
  from h1 h2 h3 h4 h5 h7 op r10 r62 show ?thesis by (simp add: ex_calls_def)
qed

text \<open>
  C4: for a breaker in state \<open>HALF_OPEN\<close>, \<open>on_failure\<close> sets the state to \<open>OPEN\<close>
  and \<open>success_count\<close> to 0 whatever \<open>success_count\<close> was; and so does a \<open>call\<close>
  that the half-open limit admits and whose callable raises an exception.
\<close>

theorem half_open_failure_reopens:
  assumes "state b = HALF_OPEN"
  shows "state (on_failure b error_type now) = OPEN
       \<and> success_count (on_failure b error_type now) = 0
       \<and> (half_open_calls b < half_open_max_calls (config b) \<and> func w = (Raised e, w') \<longrightarrow>
            (\<exists>b'. call clock b func w = (Raised e, b', w')
                 \<and> state b' = OPEN \<and> success_count b' = 0))"
  using assms
  by (simp add: on_failure_def call_def admit_def half_open_gate_def Let_def)

theorem half_open_failure_reopens_witness:
  "state ex_half_open = HALF_OPEN \<and> success_count ex_half_open = 2
   \<and> half_open_calls ex_half_open < half_open_max_calls (config ex_half_open)
   \<and> ex_failing 70 = (Raised (PyExc ''ConnectionError'' []), 70)
   \<and> state (on_failure ex_half_open ''ConnectionError'' 70) = OPEN
   \<and> success_count (on_failure ex_half_open ''ConnectionError'' 70) = 0
   \<and> (\<exists>b'. call ex_clock ex_half_open ex_failing 70 = (Raised (PyExc ''ConnectionError'' []), b', 70)
          \<and> state b' = OPEN \<and> success_count b' = 0)"
proof -
  have h: "state ex_half_open = HALF_OPEN" by (simp add: ex_half_open_def)
  have s: "success_count ex_half_open = 2" by (simp add: ex_half_open_def)
  have a: "half_open_calls ex_half_open < half_open_max_calls (config ex_half_open)"
    by (simp add: ex_half_open_def ex_breaker_def CircuitBreaker_init_def
        CircuitBreakerConfig_default_def)
  have f: "ex_failing 70 = (Raised (PyExc ''ConnectionError'' []), 70)"
    by (simp add: ex_failing_def)
  from half_open_failure_reopens [OF h, of "''ConnectionError''" 70 ex_failing 70
      "PyExc ''ConnectionError'' []" 70 ex_clock] h s a f
  show ?thesis by simp
qed

section \<open>Retry policy\<close>

lemma float_pow_in_range:
  assumes "0 \<le> n" and "real_of_int n < double_limit" and "\<bar>x ^ nat n\<bar> < double_limit"
  shows "float_pow x n = Inr (x ^ nat n)"
  using assms by (simp add: float_pow_def Let_def)

lemma get_delay_in_range:
  assumes "1 \<le> k" and "0 \<le> r" and "r < 1"
    and "real_of_int (k - 1) < double_limit"
    and "\<bar>backoff_factor p ^ nat (k - 1)\<bar> < double_limit"
  shows "(\<not> jitter p \<longrightarrow>
            get_delay p k r
              = Inr (min (base_delay p * backoff_factor p ^ nat (k - 1)) (max_delay p)))
       \<and> (jitter p \<longrightarrow>
            (\<exists>f. 1/2 \<le> f \<and> f \<le> 1 \<and>
                 get_delay p k r
                   = Inr (f * min (base_delay p * backoff_factor p ^ nat (k - 1)) (max_delay p))))"
proof -
  have pw: "float_pow (backoff_factor p) (k - 1) = Inr (backoff_factor p ^ nat (k - 1))"
    using assms(1,4,5) by (intro float_pow_in_range) simp_all
  have f: "1/2 \<le> 1/2 + r * (1/2) \<and> 1/2 + r * (1/2) \<le> 1"
    using assms(2,3) by simp
  show ?thesis
  proof (intro conjI impI)
    assume "\<not> jitter p"
    then show "get_delay p k r
              = Inr (min (base_delay p * backoff_factor p ^ nat (k - 1)) (max_delay p))"
      by (simp add: get_delay_def pw)
  next
    assume j: "jitter p"
    have "get_delay p k r
            = Inr ((1/2 + r * (1/2))
                   * min (base_delay p * backoff_factor p ^ nat (k - 1)) (max_delay p))"
      using j by (simp add: get_delay_def pw Let_def mult.commute)
    with f show "\<exists>f. 1/2 \<le> f \<and> f \<le> 1 \<and>
                 get_delay p k r
                   = Inr (f * min (base_delay p * backoff_factor p ^ nat (k - 1)) (max_delay p))"
      by blast
  qed
qed

text \<open>
  C5: the default policy without jitter at attempt 1025. The claimed delay is
  \<open>min (1 * 2 ^ 1024) 60 = 60\<close>, but the power \<open>2.0 ** 1024\<close> is computed before the
  cap and leaves the range of the doubles, so \<open>get_delay\<close> raises
  \<^verbatim>\<open>OverflowError\<close>. One attempt earlier the delay is the capped 60.
\<close>

theorem get_delay_overflow:
  "get_delay (RetryPolicy_default\<lparr>jitter := False\<rparr>) 1025 0
     = Inl (PyExc ''OverflowError'' ''Numerical result out of range'')
   \<and> min (base_delay RetryPolicy_default * backoff_factor RetryPolicy_default ^ nat (1025 - 1))
          (max_delay RetryPolicy_default) = 60
   \<and> get_delay (RetryPolicy_default\<lparr>jitter := False\<rparr>) 1024 0 = Inr 60"
  by (simp add: get_delay_def float_pow_def double_limit_def RetryPolicy_default_def Let_def)

lemma scripted_apply:
  "scripted outs l = (outs (invocations l), l\<lparr>invocations := Suc (invocations l)\<rparr>)"
  by (simp add: scripted_def)

lemma invocations_log_sleep: "invocations (log_sleep d l) = invocations l"
  by (simp add: log_sleep_def)

lemma waits_log_sleep: "waits (log_sleep d l) = waits l @ [d]"
  by (simp add: log_sleep_def)

lemma execute_loop_invocations:
  "invocations (snd (execute_loop p rnd log_sleep fn (scripted outs) lastx as l))
     \<le> invocations l + length as"
proof (induction as arbitrary: lastx l)
  case Nil
  then show ?case by (simp split: option.splits)
next
  case (Cons a as)
  let ?l1 = "l\<lparr>invocations := Suc (invocations l)\<rparr>"
  have sc: "scripted outs l = (outs (invocations l), ?l1)"
    by (rule scripted_apply)
  show ?case
  proof (cases "outs (invocations l)")
    case (Returned v)
    then show ?thesis by (simp add: sc)
  next
    case (Escaped e)
    then show ?thesis by (simp add: sc)
  next
    case (Raised e)
    show ?thesis
    proof (cases "a = max_attempts p")
      case True
      with Raised show ?thesis by (cases fn) (simp_all add: sc)
    next
      case False
      show ?thesis
      proof (cases "get_delay p a (rnd a)")
        case (Inl err)
        with Raised False show ?thesis by (simp add: sc)
      next
        case (Inr d)
        have "invocations (snd (execute_loop p rnd log_sleep fn (scripted outs) (Some e) as
                (log_sleep d ?l1)))
              \<le> invocations (log_sleep d ?l1) + length as"
          by (rule Cons.IH)
        with Raised False Inr show ?thesis
          by (cases fn) (simp_all add: sc invocations_log_sleep)
      qed
    qed
  qed
qed

lemma execute_loop_failures_then_last:
  assumes "m = max_attempts p" and "k \<le> m"
    and "\<forall>i. k \<le> i \<and> i < m \<longrightarrow> (\<exists>d. get_delay p i (rnd i) = Inr d)"
    and "\<forall>i. k \<le> i \<and> i < m \<longrightarrow> (\<exists>e. outs (invocations l + nat (i - k)) = Raised e)"
  shows "\<exists>ds. execute_loop p rnd log_sleep (Some n) (scripted outs) lastx [k..m] l
           = (outs (invocations l + nat (m - k)),
              \<lparr>invocations = invocations l + nat (m - k) + 1, waits = waits l @ ds\<rparr>)
         \<and> map Inr ds = map (\<lambda>i. get_delay p i (rnd i)) [k..m - 1]"
  using assms
proof (induction "nat (m - k)" arbitrary: k l lastx)
  case 0
  then have km: "k = m" by simp
  have up: "[k..m] = [m]" using km by (simp add: upto_rec1)
  have sc: "scripted outs l = (outs (invocations l), l\<lparr>invocations := Suc (invocations l)\<rparr>)"
    by (rule scripted_apply)
  show ?case
    using km 0(2)
    by (cases "outs (invocations l)") (simp_all add: up sc)
next
  case (Suc d)
  then have lt: "k < m" by linarith
  from Suc.prems(4) lt have "\<exists>e. outs (invocations l + nat (k - k)) = Raised e"
    by blast
  then obtain e where e: "outs (invocations l) = Raised e" by auto
  from Suc.prems(3) lt obtain dl where dl: "get_delay p k (rnd k) = Inr dl"
    by blast
  let ?l' = "log_sleep dl (l\<lparr>invocations := Suc (invocations l)\<rparr>)"
  have inv': "invocations ?l' = Suc (invocations l)" by (simp add: invocations_log_sleep)
  have waits': "waits ?l' = waits l @ [dl]" by (simp add: waits_log_sleep)
  have d: "d = nat (m - (k + 1))" using Suc.hyps(2) by linarith
  have fails: "\<forall>i. k + 1 \<le> i \<and> i < m \<longrightarrow> (\<exists>e. outs (invocations ?l' + nat (i - (k + 1))) = Raised e)"
  proof (intro allI impI)
    fix i assume i: "k + 1 \<le> i \<and> i < m"
    then have "\<exists>e. outs (invocations l + nat (i - k)) = Raised e"
      using Suc.prems(4) by simp
    moreover have "Suc (nat (i - (k + 1))) = nat (i - k)" using i by linarith
    then have "invocations ?l' + nat (i - (k + 1)) = invocations l + nat (i - k)"
      using inv' by simp
    ultimately show "\<exists>e. outs (invocations ?l' + nat (i - (k + 1))) = Raised e" by simp
  qed
  have k1: "k + 1 \<le> m" using lt by simp
  have delays: "\<forall>i. k + 1 \<le> i \<and> i < m \<longrightarrow> (\<exists>d. get_delay p i (rnd i) = Inr d)"
    using Suc.prems(3) by simp
  from Suc.hyps(1) [OF d Suc.prems(1) k1 delays fails, of "Some e"]
  obtain ds where
    run: "execute_loop p rnd log_sleep (Some n) (scripted outs) (Some e) [k + 1..m] ?l'
           = (outs (invocations ?l' + nat (m - (k + 1))),
              \<lparr>invocations = invocations ?l' + nat (m - (k + 1)) + 1, waits = waits ?l' @ ds\<rparr>)"
    and ds: "map Inr ds = map (\<lambda>i. get_delay p i (rnd i)) [k + 1..m - 1]"
    by auto
  have "Suc (nat (m - (k + 1))) = nat (m - k)" using lt by linarith
  then have idx: "invocations ?l' + nat (m - (k + 1)) = invocations l + nat (m - k)"
    using inv' by simp
  have up: "[k..m] = k # [k + 1..m]" using lt by (simp add: upto_rec1)
  have up': "[k..m - 1] = k # [k + 1..m - 1]" using lt by (simp add: upto_rec1)
  have ne: "k \<noteq> max_attempts p" using lt Suc.prems(1) by simp
  have sc: "scripted outs l = (Raised e, l\<lparr>invocations := Suc (invocations l)\<rparr>)"
    by (simp add: scripted_apply e)
  have "execute_loop p rnd log_sleep (Some n) (scripted outs) lastx [k..m] l
          = execute_loop p rnd log_sleep (Some n) (scripted outs) (Some e) [k + 1..m] ?l'"
    unfolding up by (simp add: sc ne dl)
  also have "\<dots> = (outs (invocations l + nat (m - k)),
              \<lparr>invocations = invocations l + nat (m - k) + 1, waits = waits l @ (dl # ds)\<rparr>)"
    using run unfolding idx waits' by simp
  finally have
    "execute_loop p rnd log_sleep (Some n) (scripted outs) lastx [k..m] l
           = (outs (invocations l + nat (m - k)),
              \<lparr>invocations = invocations l + nat (m - k) + 1, waits = waits l @ (dl # ds)\<rparr>)" .
  moreover have "map Inr (dl # ds) = map (\<lambda>i. get_delay p i (rnd i)) [k..m - 1]"
    using ds dl by (simp add: up')
  ultimately show ?case by blast
qed

lemma execute_named_attempts:
  assumes "1 \<le> max_attempts p"
    and "\<forall>k. 1 \<le> k \<and> k < max_attempts p \<longrightarrow> (\<exists>d. get_delay p k (rnd k) = Inr d)"
    and "\<forall>k < nat (max_attempts p) - 1. \<exists>e. outs k = Raised e"
  shows "\<exists>ds. execute p rnd log_sleep (Some n) (scripted outs) run_start
                 = (outs (nat (max_attempts p) - 1),
                    \<lparr>invocations = nat (max_attempts p), waits = ds\<rparr>)
             \<and> length ds = nat (max_attempts p) - 1
             \<and> map Inr ds = map (\<lambda>k. get_delay p k (rnd k)) [1..max_attempts p - 1]"
proof -
  have f': "\<forall>i. 1 \<le> i \<and> i < max_attempts p \<longrightarrow>
              (\<exists>e. outs (invocations run_start + nat (i - 1)) = Raised e)"
  proof (intro allI impI)
    fix i assume "1 \<le> i \<and> i < max_attempts p"
    then have "nat (i - 1) < nat (max_attempts p) - 1" by linarith
    with assms(3) show "\<exists>e. outs (invocations run_start + nat (i - 1)) = Raised e"
      by (simp add: run_start_def)
  qed
  from execute_loop_failures_then_last [OF refl assms(1,2) f', of n None]
  obtain ds where
    run: "execute_loop p rnd log_sleep (Some n) (scripted outs) None [1..max_attempts p] run_start
           = (outs (invocations run_start + nat (max_attempts p - 1)),
              \<lparr>invocations = invocations run_start + nat (max_attempts p - 1) + 1,
                 waits = waits run_start @ ds\<rparr>)"
    and ds: "map Inr ds = map (\<lambda>i. get_delay p i (rnd i)) [1..max_attempts p - 1]"
    by auto
  have n: "nat (max_attempts p - 1) = nat (max_attempts p) - 1" by linarith
  have n': "nat (max_attempts p) - 1 + 1 = nat (max_attempts p)" using assms(1) by linarith
  have "length (map (Inr :: real \<Rightarrow> py_exception + real) ds) = length [1..max_attempts p - 1]"
    unfolding ds by simp
  then have len: "length ds = nat (max_attempts p) - 1" using assms(1) n by simp
  have "execute p rnd log_sleep (Some n) (scripted outs) run_start
          = (outs (nat (max_attempts p) - 1), \<lparr>invocations = nat (max_attempts p), waits = ds\<rparr>)"
    unfolding execute_def run using n n' by (simp add: run_start_def)
  with len ds show ?thesis by blast
qed

lemma execute_invocations:
  "invocations (snd (execute p rnd log_sleep fn (scripted outs) run_start))
     \<le> nat (max_attempts p)"
proof -
  have "invocations (snd (execute p rnd log_sleep fn (scripted outs) run_start))
          \<le> invocations run_start + length [1..max_attempts p]"
    unfolding execute_def by (rule execute_loop_invocations)
  then show ?thesis by (simp add: run_start_def)
qed

text \<open>
  C6: the default policy (three attempts) on a callable that fails twice and then
  returns 7. The claim says that \<open>execute\<close> returns 7 after three invocations and two
  waits, and so it does for a callable with a \<^verbatim>\<open>__name__\<close>. For a callable
  without one, the handler of the first failure raises \<^verbatim>\<open>AttributeError\<close> while it
  builds its log message: one invocation, no wait, and neither the value nor the
  exception of the callable reaches the caller.
\<close>

theorem execute_unnamed_callable:
  "ex_script 0 = Raised (PyExc ''TimeoutError'' [])
   \<and> ex_script 1 = Raised (PyExc ''TimeoutError'' [])
   \<and> ex_script 2 = Returned 7
   \<and> max_attempts RetryPolicy_default = 3
   \<and> execute RetryPolicy_default ex_rnd log_sleep None (scripted ex_script) run_start
       = (Raised AttributeError_name, \<lparr>invocations = 1, waits = []\<rparr>)
   \<and> execute RetryPolicy_default ex_rnd log_sleep (Some ''fetch'') (scripted ex_script) run_start
       = (Returned 7, \<lparr>invocations = 3, waits = [1/2, 1]\<rparr>)"
  by (simp add: execute_def RetryPolicy_default_def upto_rec1 scripted_apply ex_script_def
      run_start_def get_delay_def float_pow_def double_limit_def log_sleep_def ex_rnd_def Let_def)

end
